theory Spec2Isabelle
  imports Main "HOL-Library.Sublist" "HOL-Library.Multiset" "HOL-Library.AList"
    "HOL-Library.Monad_Syntax"
begin

section \<open>Values of the JavaScript runtime\<close>

text \<open>
  A \<open>Date\<close> object holds a time value: milliseconds since the epoch, or \<open>NaN\<close> for an
  invalid date. Strings are lists of code units; the 8-bit \<open>char\<close> covers the code units
  below 256.
\<close>

datatype date = Invalid_Date | Date int

text \<open>
  The values that \<open>JSON.parse\<close> returns and that the loaded task objects hold. Numbers are
  IEEE doubles; they stay opaque (type \<open>'n\<close>) and are only handed to the platform.
  An object is the list of its own properties; a property is read by its name
  (\<open>map_of\<close>), and no statement below depends on the order of the list.
\<close>

datatype 'n jsval =
    VUndefined
  | VNull
  | VBool bool
  | VNum 'n
  | VStr string
  | VDate date
  | VArr "'n jsval list"
  | VObj "(string \<times> 'n jsval) list"

text \<open>
  What the code takes from the browser and the language runtime. A function that can throw
  returns \<open>None\<close> for the exception.
  \<^item> \<open>JSON_parse\<close>: \<open>JSON.parse(text)\<close>, \<open>None\<close> for a \<open>SyntaxError\<close>;
  \<^item> \<open>JSON_stringify\<close>: the text of a tree of null, booleans, numbers, strings, arrays and objects;
  \<^item> \<open>Date_parse\<close>: the date that \<open>new Date(string)\<close> holds;
  \<^item> \<open>Date_toISOString\<close>: \<open>toISOString()\<close> of a valid date with this time value;
  \<^item> \<open>Number_toString\<close>, \<open>Number_toBoolean\<close>, \<open>Date_ofNumber\<close>: \<open>String(n)\<close>, the
    truthiness of \<open>n\<close> and \<open>new Date(n)\<close> for a number \<open>n\<close>;
  \<^item> \<open>Object_toPrimitive\<close>: the string an array, object or date converts to, \<open>None\<close> for the
    \<open>TypeError\<close> of an object that has no primitive value.
\<close>

record 'n platform =
  JSON_parse :: "string \<Rightarrow> 'n jsval option"
  JSON_stringify :: "'n jsval \<Rightarrow> string"
  Date_parse :: "string \<Rightarrow> date"
  Date_toISOString :: "int \<Rightarrow> string"
  Number_toString :: "'n \<Rightarrow> string"
  Number_toBoolean :: "'n \<Rightarrow> bool"
  Date_ofNumber :: "'n \<Rightarrow> date"
  Object_toPrimitive :: "'n jsval \<Rightarrow> string option"

section \<open>The task record and the component state\<close>

text \<open>
  \<open>interface Todo\<close>. The optional fields are \<open>None\<close> when the property is missing or
  \<open>undefined\<close>. The interface declares \<open>deadline?: Date\<close>; a task read back from local
  storage holds the stored string there (the load converts \<open>createdAt\<close> and \<open>completedAt\<close>
  only), so the field has both shapes.
\<close>

datatype deadline_value = Deadline_Date date | Deadline_String string

record todo =
  todo_id :: string
  todo_text :: string
  completed :: bool
  createdAt :: date
  completedAt :: "date option"
  deadline :: "deadline_value option"

datatype filter_mode = F_all | F_active | F_completed

text \<open>The \<open>useState\<close> cells of \<open>App\<close> that the task handlers read and write.\<close>

record app_state =
  todos :: "todo list"
  newTodo :: string
  newDeadline :: string
  editingId :: "string option"
  editingText :: string
  filter_sel :: filter_mode
  justAddedId :: "string option"

section \<open>Library functions\<close>

text \<open>\<open>Array.prototype.findIndex\<close>: the first index whose element satisfies \<open>p\<close>, else \<open>-1\<close>.\<close>

fun findIndex :: "('a \<Rightarrow> bool) \<Rightarrow> 'a list \<Rightarrow> int" where
  "findIndex p [] = -1"
| "findIndex p (x # xs) =
     (if p x then 0 else (let i = findIndex p xs in if i < 0 then -1 else i + 1))"

text \<open>
  The start position \<open>Array.prototype.splice\<close> computes from its first argument: a negative
  one counts from the end, and the result is clamped to \<open>0 .. len\<close>.
\<close>

definition splice_start :: "nat \<Rightarrow> int \<Rightarrow> nat" where
  "splice_start len start =
     (if start < 0 then nat (max (int len + start) 0) else min (nat start) len)"

text \<open>
  \<open>arrayMove\<close> of \<open>@dnd-kit/sortable\<close>, which \<open>handleDragEnd\<close> calls:
  \<^verbatim>\<open>
  const newArray = array.slice();
  newArray.splice(to < 0 ? newArray.length + to : to, 0, newArray.splice(from, 1)[0]);
  return newArray;
  \<close>
  The arguments are evaluated left to right: the target position is computed on the full
  length, then the inner \<open>splice\<close> removes one element at \<open>from\<close>, then the outer one
  inserts it. When the inner \<open>splice\<close> removes nothing (the array is empty at that
  position), \<open>undefined\<close> would be inserted: the result is \<open>None\<close>, no list of elements.
\<close>

definition arrayMove :: "'a list \<Rightarrow> int \<Rightarrow> int \<Rightarrow> 'a list option" where
  "arrayMove array from to =
     (let target = (if to < 0 then int (length array) + to else to);
          a = splice_start (length array) from;
          removed = take 1 (drop a array);
          newArray = take a array @ drop (a + length removed) array
      in case removed of
           [] \<Rightarrow> None
         | item # _ \<Rightarrow>
             (let b = splice_start (length newArray) target
              in Some (take b newArray @ item # drop b newArray)))"

text \<open>
  \<open>String.prototype.trim\<close> strips white space and line terminators from both ends; these
  are the ones among the code units below 256 (TAB, LF, VT, FF, CR, SP, NBSP).
\<close>

definition isWhiteSpace :: "char \<Rightarrow> bool" where
  "isWhiteSpace c =
     (c = CHR 0x09 \<or> c = CHR 0x0A \<or> c = CHR 0x0B \<or> c = CHR 0x0C \<or> c = CHR 0x0D
      \<or> c = CHR 0x20 \<or> c = CHR 0xA0)"

definition trim :: "string \<Rightarrow> string" where
  "trim s = rev (dropWhile isWhiteSpace (rev (dropWhile isWhiteSpace s)))"

text \<open>
  \<open>Number.prototype.toString\<close> on an integer time value (below \<open>10^21\<close> in magnitude, as
  every time value is): its decimal digits.
\<close>

fun digits :: "nat \<Rightarrow> string" where
  "digits n =
     (if n < 10 then [''0123456789'' ! n]
      else digits (n div 10) @ [''0123456789'' ! (n mod 10)])"

declare digits.simps [simp del]

definition int_toString :: "int \<Rightarrow> string" where
  "int_toString i = (if i < 0 then CHR ''-'' # digits (nat (- i)) else digits (nat i))"

section \<open>The task handlers of \<open>App\<close>\<close>

text \<open>
  \<open>handleDragEnd\<close>: \<open>active\<close> is \<open>active.id\<close>, \<open>over\<close> is \<open>over?.id\<close> (\<open>None\<close> for
  \<open>undefined\<close>, when the drag ends over no target). A string is never \<open>===\<close> to
  \<open>undefined\<close>. The result is \<open>None\<close> when \<open>arrayMove\<close> has no list to return, which is
  the case for the empty store only (lemma \<open>handleDragEnd_None\<close>).
\<close>

definition handleDragEnd :: "string \<Rightarrow> string option \<Rightarrow> app_state \<Rightarrow> app_state option" where
  "handleDragEnd active over st =
     (if Some active \<noteq> over then
        (let oldIndex = findIndex (\<lambda>t. todo_id t = active) (todos st);
             newIndex = findIndex (\<lambda>t. Some (todo_id t) = over) (todos st)
         in map_option (\<lambda>ts. st\<lparr>todos := ts\<rparr>) (arrayMove (todos st) oldIndex newIndex))
      else Some st)"

text \<open>
  \<open>addTodo\<close>: \<open>now_id\<close> is what \<open>Date.now()\<close> returns and \<open>now_created\<close> the time of
  \<open>new Date()\<close>. The stored text is the untrimmed input.
\<close>

definition addTodo :: "'n platform \<Rightarrow> int \<Rightarrow> int \<Rightarrow> app_state \<Rightarrow> app_state" where
  "addTodo P now_id now_created st =
     (if trim (newTodo st) = [] then st
      else
        (let newId = int_toString now_id
         in st\<lparr>todos := todos st @
                  [\<lparr>todo_id = newId,
                    todo_text = newTodo st,
                    completed = False,
                    createdAt = Date now_created,
                    completedAt = None,
                    deadline = (if newDeadline st \<noteq> []
                                then Some (Deadline_Date (Date_parse P (newDeadline st)))
                                else None)\<rparr>],
                newTodo := [],
                newDeadline := [],
                justAddedId := Some newId\<rparr>))"

text \<open>The timer that \<open>addTodo\<close> starts clears the highlight 800 ms later.\<close>

definition highlightExpired :: "app_state \<Rightarrow> app_state" where
  "highlightExpired st = st\<lparr>justAddedId := None\<rparr>"

text \<open>
  \<open>toggleTodo\<close>: \<open>now\<close> is the time of \<open>new Date()\<close>, which the callback reads for the
  task it completes (one reading: with unique ids one task has the id). Un-completing
  copies the task without its \<open>completedAt\<close> property.
\<close>

definition toggle :: "int \<Rightarrow> string \<Rightarrow> todo \<Rightarrow> todo" where
  "toggle now i t =
     (if todo_id t = i then
        (if \<not> completed t then t\<lparr>completed := True, completedAt := Some (Date now)\<rparr>
         else t\<lparr>completedAt := None, completed := False\<rparr>)
      else t)"

definition toggleTodo :: "int \<Rightarrow> string \<Rightarrow> app_state \<Rightarrow> app_state" where
  "toggleTodo now i st = st\<lparr>todos := map (toggle now i) (todos st)\<rparr>"

definition deleteTodo :: "string \<Rightarrow> app_state \<Rightarrow> app_state" where
  "deleteTodo i st = st\<lparr>todos := filter (\<lambda>t. todo_id t \<noteq> i) (todos st)\<rparr>"

definition startEditing :: "todo \<Rightarrow> app_state \<Rightarrow> app_state" where
  "startEditing t st = st\<lparr>editingId := Some (todo_id t), editingText := todo_text t\<rparr>"

definition submitEdit :: "app_state \<Rightarrow> app_state" where
  "submitEdit st =
     (case editingId st of
        None \<Rightarrow> st
      | Some eid \<Rightarrow>
          st\<lparr>todos := map (\<lambda>t. if todo_id t = eid then t\<lparr>todo_text := editingText st\<rparr> else t)
                          (todos st),
             editingId := None,
             editingText := []\<rparr>)"

definition cancelEdit :: "app_state \<Rightarrow> app_state" where
  "cancelEdit st = st\<lparr>editingId := None, editingText := []\<rparr>"

text \<open>
  The predicate of \<open>filteredTodos\<close>, and the list that is rendered. The type of \<open>filter\<close>
  has the three modes only, so the last \<open>return true\<close> of the source is never reached.
\<close>

fun shown :: "filter_mode \<Rightarrow> todo \<Rightarrow> bool" where
  "shown F_all t = True"
| "shown F_active t = (\<not> completed t)"
| "shown F_completed t = completed t"

definition filteredTodos :: "app_state \<Rightarrow> todo list" where
  "filteredTodos st = filter (shown (filter_sel st)) (todos st)"

text \<open>
  The user's actions on the task store, and a run of them from a state: each handler works
  on the state that the one before it left (the component is rendered again between two
  events).
\<close>

datatype event =
    SetNewTodo string
  | SetNewDeadline string
  | AddTodo int int
  | HighlightExpired
  | ToggleTodo int string
  | DeleteTodo string
  | StartEditing todo
  | SetEditingText string
  | SubmitEdit
  | CancelEdit
  | SetFilter filter_mode
  | DragEnd string "string option"

fun step :: "'n platform \<Rightarrow> event \<Rightarrow> app_state \<Rightarrow> app_state option" where
  "step P (SetNewTodo s) st = Some (st\<lparr>newTodo := s\<rparr>)"
| "step P (SetNewDeadline s) st = Some (st\<lparr>newDeadline := s\<rparr>)"
| "step P (AddTodo now_id now_created) st = Some (addTodo P now_id now_created st)"
| "step P HighlightExpired st = Some (highlightExpired st)"
| "step P (ToggleTodo now i) st = Some (toggleTodo now i st)"
| "step P (DeleteTodo i) st = Some (deleteTodo i st)"
| "step P (StartEditing t) st = Some (startEditing t st)"
| "step P (SetEditingText s) st = Some (st\<lparr>editingText := s\<rparr>)"
| "step P SubmitEdit st = Some (submitEdit st)"
| "step P CancelEdit st = Some (cancelEdit st)"
| "step P (SetFilter f) st = Some (st\<lparr>filter_sel := f\<rparr>)"
| "step P (DragEnd active over) st = handleDragEnd active over st"

fun run :: "'n platform \<Rightarrow> event list \<Rightarrow> app_state \<Rightarrow> app_state option" where
  "run P [] st = Some st"
| "run P (e # es) st = (case step P e st of None \<Rightarrow> None | Some st' \<Rightarrow> run P es st')"

section \<open>Persistence in local storage\<close>

subsection \<open>Reading the stored value\<close>

text \<open>
  \<open>v.key\<close> for one of the names the load reads (\<open>id\<close>, \<open>createdAt\<close>, \<open>completedAt\<close>: no
  index, not \<open>length\<close>, on no prototype). Reading a property of \<open>null\<close> or \<open>undefined\<close>
  throws a \<open>TypeError\<close>; any other value that has no such own property gives \<open>undefined\<close>.
\<close>

fun get_prop :: "'n jsval \<Rightarrow> string \<Rightarrow> 'n jsval option" where
  "get_prop VUndefined k = None"
| "get_prop VNull k = None"
| "get_prop (VObj ps) k = Some (case map_of ps k of None \<Rightarrow> VUndefined | Some v \<Rightarrow> v)"
| "get_prop v k = Some VUndefined"

text \<open>The truthiness of a value, as the conditional \<open>todo.completedAt ? ... : undefined\<close> tests it.\<close>

fun ToBoolean :: "'n platform \<Rightarrow> 'n jsval \<Rightarrow> bool" where
  "ToBoolean P VUndefined = False"
| "ToBoolean P VNull = False"
| "ToBoolean P (VBool b) = b"
| "ToBoolean P (VNum n) = Number_toBoolean P n"
| "ToBoolean P (VStr s) = (s \<noteq> [])"
| "ToBoolean P v = True"

text \<open>\<open>String(v)\<close>.\<close>

fun String_of :: "'n platform \<Rightarrow> 'n jsval \<Rightarrow> string option" where
  "String_of P VUndefined = Some ''undefined''"
| "String_of P VNull = Some ''null''"
| "String_of P (VBool b) = Some (if b then ''true'' else ''false'')"
| "String_of P (VNum n) = Some (Number_toString P n)"
| "String_of P (VStr s) = Some s"
| "String_of P v = Object_toPrimitive P v"

text \<open>
  \<open>new Date(v)\<close> with one argument: a date is copied, a string is parsed, an array or object
  is converted to a string first, any other value is converted to a number
  (\<open>undefined\<close> to \<open>NaN\<close>, \<open>null\<close> to 0, \<open>true\<close> to 1).
\<close>

fun new_Date :: "'n platform \<Rightarrow> 'n jsval \<Rightarrow> date option" where
  "new_Date P VUndefined = Some Invalid_Date"
| "new_Date P VNull = Some (Date 0)"
| "new_Date P (VBool b) = Some (Date (if b then 1 else 0))"
| "new_Date P (VNum n) = Some (Date_ofNumber P n)"
| "new_Date P (VStr s) = Some (Date_parse P s)"
| "new_Date P (VDate d) = Some d"
| "new_Date P v = map_option (Date_parse P) (Object_toPrimitive P v)"

text \<open>
  The own enumerable properties that \<open>{...v}\<close> copies: those of an object, the indexed
  elements of an array, the indexed code units of a string, none of any other value.
\<close>

fun spread :: "'n jsval \<Rightarrow> (string \<times> 'n jsval) list" where
  "spread (VObj ps) = ps"
| "spread (VArr xs) = zip (map digits [0..<length xs]) xs"
| "spread (VStr s) = zip (map digits [0..<length s]) (map (\<lambda>c. VStr [c]) s)"
| "spread v = []"

text \<open>
  The callback of \<open>parsed.map\<close> in the \<open>useState\<close> initializer. A property named in the
  literal after the spread replaces the copied one in place, or is added last
  (\<open>AList.update\<close>).
\<close>

definition revive_initial :: "'n platform \<Rightarrow> 'n jsval \<Rightarrow> 'n jsval option" where
  "revive_initial P todo =
     do {
       id_value \<leftarrow> get_prop todo ''id'';
       id_string \<leftarrow> String_of P id_value;
       created_value \<leftarrow> get_prop todo ''createdAt'';
       created \<leftarrow> new_Date P created_value;
       completed_value \<leftarrow> get_prop todo ''completedAt'';
       completed_at \<leftarrow> (if ToBoolean P completed_value
                        then map_option VDate (new_Date P completed_value)
                        else Some VUndefined);
       Some (VObj (AList.update ''completedAt'' completed_at
                    (AList.update ''createdAt'' (VDate created)
                      (AList.update ''id'' (VStr id_string) (spread todo)))))
     }"

text \<open>The callback of \<open>parsed.map\<close> in the effect that runs on mount: no \<open>id\<close> conversion.\<close>

definition revive_effect :: "'n platform \<Rightarrow> 'n jsval \<Rightarrow> 'n jsval option" where
  "revive_effect P todo =
     do {
       created_value \<leftarrow> get_prop todo ''createdAt'';
       created \<leftarrow> new_Date P created_value;
       completed_value \<leftarrow> get_prop todo ''completedAt'';
       completed_at \<leftarrow> (if ToBoolean P completed_value
                        then map_option VDate (new_Date P completed_value)
                        else Some VUndefined);
       Some (VObj (AList.update ''completedAt'' completed_at
                    (AList.update ''createdAt'' (VDate created) (spread todo))))
     }"

text \<open>
  \<open>parsed.map(f)\<close>: a \<open>TypeError\<close> unless \<open>parsed\<close> is an array; an exception in one call of
  \<open>f\<close> ends the whole \<open>map\<close>.
\<close>

definition parsed_map :: "('n jsval \<Rightarrow> 'n jsval option) \<Rightarrow> 'n jsval \<Rightarrow> 'n jsval list option" where
  "parsed_map f parsed = (case parsed of VArr xs \<Rightarrow> those (map f xs) | _ \<Rightarrow> None)"

text \<open>
  The initializer of the \<open>todos\<close> state. \<open>stored\<close> is \<open>localStorage.getItem('todos')\<close>:
  \<open>None\<close> for \<open>null\<close>. The \<open>catch\<close> returns the empty list.
\<close>

definition initial_todos :: "'n platform \<Rightarrow> string option \<Rightarrow> 'n jsval list" where
  "initial_todos P stored =
     (case stored of
        None \<Rightarrow> []
      | Some s \<Rightarrow>
          if s \<noteq> [] then
            (case JSON_parse P s \<bind> parsed_map (revive_initial P) of
               Some loaded \<Rightarrow> loaded
             | None \<Rightarrow> [])
          else [])"

text \<open>The effect on mount reads the slot again; its \<open>catch\<close> sets nothing.\<close>

definition load_effect :: "'n platform \<Rightarrow> string option \<Rightarrow> 'n jsval list \<Rightarrow> 'n jsval list" where
  "load_effect P stored current =
     (case stored of
        None \<Rightarrow> current
      | Some s \<Rightarrow>
          if s \<noteq> [] then
            (case JSON_parse P s \<bind> parsed_map (revive_effect P) of
               Some loaded \<Rightarrow> loaded
             | None \<Rightarrow> current)
          else current)"

text \<open>The tasks after startup: the initializer, then the effect on mount.\<close>

definition load :: "'n platform \<Rightarrow> string option \<Rightarrow> 'n jsval list" where
  "load P stored = load_effect P stored (initial_todos P stored)"

subsection \<open>Writing the tasks\<close>

text \<open>
  \<open>JSON.stringify\<close> calls \<open>toJSON\<close> on a \<open>Date\<close>: the ISO string, or \<open>null\<close> for an invalid
  date. It leaves out a property whose value is \<open>undefined\<close>. The properties come in the
  order the handlers create them: the literal of \<open>addTodo\<close>, then \<open>completedAt\<close>, which
  \<open>toggleTodo\<close> adds last.
\<close>

definition date_toJSON :: "'n platform \<Rightarrow> date \<Rightarrow> 'n jsval" where
  "date_toJSON P d = (case d of Invalid_Date \<Rightarrow> VNull | Date t \<Rightarrow> VStr (Date_toISOString P t))"

definition deadline_toJSON :: "'n platform \<Rightarrow> deadline_value \<Rightarrow> 'n jsval" where
  "deadline_toJSON P d = (case d of Deadline_Date d' \<Rightarrow> date_toJSON P d' | Deadline_String s \<Rightarrow> VStr s)"

definition todo_toJSON :: "'n platform \<Rightarrow> todo \<Rightarrow> 'n jsval" where
  "todo_toJSON P t =
     VObj ([(''id'', VStr (todo_id t)),
            (''text'', VStr (todo_text t)),
            (''completed'', VBool (completed t)),
            (''createdAt'', date_toJSON P (createdAt t))]
           @ (case deadline t of None \<Rightarrow> [] | Some d \<Rightarrow> [(''deadline'', deadline_toJSON P d)])
           @ (case completedAt t of None \<Rightarrow> [] | Some d \<Rightarrow> [(''completedAt'', date_toJSON P d)]))"

text \<open>The effect that follows every change of \<open>todos\<close>: the text written to the slot.\<close>

definition save :: "'n platform \<Rightarrow> todo list \<Rightarrow> string" where
  "save P ts = JSON_stringify P (VArr (map (todo_toJSON P) ts))"

subsection \<open>A loaded object seen as a \<open>Todo\<close>\<close>

fun the_string :: "'n jsval \<Rightarrow> string option" where
  "the_string (VStr s) = Some s"
| "the_string v = None"

fun the_bool :: "'n jsval \<Rightarrow> bool option" where
  "the_bool (VBool b) = Some b"
| "the_bool v = None"

fun the_date :: "'n jsval \<Rightarrow> date option" where
  "the_date (VDate d) = Some d"
| "the_date v = None"

fun optional_date :: "'n jsval option \<Rightarrow> date option option" where
  "optional_date None = Some None"
| "optional_date (Some VUndefined) = Some None"
| "optional_date (Some (VDate d)) = Some (Some d)"
| "optional_date (Some v) = None"

fun optional_deadline :: "'n jsval option \<Rightarrow> deadline_value option option" where
  "optional_deadline None = Some None"
| "optional_deadline (Some VUndefined) = Some None"
| "optional_deadline (Some (VDate d)) = Some (Some (Deadline_Date d))"
| "optional_deadline (Some (VStr s)) = Some (Some (Deadline_String s))"
| "optional_deadline (Some v) = None"

text \<open>
  The record an object of the loaded list is when its properties have the shapes of
  \<open>todo\<close>; \<open>None\<close> when they do not.
\<close>

definition as_todo :: "'n jsval \<Rightarrow> todo option" where
  "as_todo v =
     (case v of
        VObj ps \<Rightarrow>
          do {
            i \<leftarrow> map_of ps ''id'' \<bind> the_string;
            x \<leftarrow> map_of ps ''text'' \<bind> the_string;
            c \<leftarrow> map_of ps ''completed'' \<bind> the_bool;
            created \<leftarrow> map_of ps ''createdAt'' \<bind> the_date;
            completed_at \<leftarrow> optional_date (map_of ps ''completedAt'');
            dl \<leftarrow> optional_deadline (map_of ps ''deadline'');
            Some \<lparr>todo_id = i, todo_text = x, completed = c, createdAt = created,
                  completedAt = completed_at, deadline = dl\<rparr>
          }
      | _ \<Rightarrow> None)"

subsection \<open>The state after startup\<close>

text \<open>
  The cells as \<open>useState\<close> initializes them, with the loaded objects as tasks; \<open>None\<close> when
  a loaded object does not have the shape of a \<open>Todo\<close>.
\<close>

definition initial_state :: "'n platform \<Rightarrow> string option \<Rightarrow> app_state option" where
  "initial_state P stored =
     map_option
       (\<lambda>ts. \<lparr>todos = ts, newTodo = [], newDeadline = [], editingId = None, editingText = [],
              filter_sel = F_all, justAddedId = None\<rparr>)
       (those (map as_todo (load P stored)))"

section \<open>Predicates and examples for the statements\<close>

text \<open>The invariant of the data model: \<open>completedAt\<close> is present exactly on a completed task.\<close>

definition completedAt_matches :: "todo \<Rightarrow> bool" where
  "completedAt_matches t = ((completedAt t \<noteq> None) = completed t)"

text \<open>
  A date survives the storage when it is valid and the platform parses its own ISO string
  back to the same instant; the string of a valid date is never empty.
\<close>

definition iso_roundtrip :: "'n platform \<Rightarrow> date \<Rightarrow> bool" where
  "iso_roundtrip P d =
     (case d of
        Invalid_Date \<Rightarrow> False
      | Date x \<Rightarrow> Date_toISOString P x \<noteq> [] \<and> Date_parse P (Date_toISOString P x) = Date x)"

text \<open>A well-formed task: its dates are valid and survive the storage.\<close>

definition well_formed :: "'n platform \<Rightarrow> todo \<Rightarrow> bool" where
  "well_formed P t =
     (iso_roundtrip P (createdAt t)
      \<and> (case completedAt t of None \<Rightarrow> True | Some d \<Rightarrow> iso_roundtrip P d)
      \<and> (case deadline t of Some (Deadline_Date d) \<Rightarrow> d \<noteq> Invalid_Date | _ \<Rightarrow> True))"

text \<open>What a deadline is after it was written and read back: the string that was stored.\<close>

definition stored_deadline :: "'n platform \<Rightarrow> deadline_value \<Rightarrow> deadline_value" where
  "stored_deadline P d =
     (case d of
        Deadline_Date (Date x) \<Rightarrow> Deadline_String (Date_toISOString P x)
      | _ \<Rightarrow> d)"

definition reloaded :: "'n platform \<Rightarrow> todo \<Rightarrow> todo" where
  "reloaded P t = t\<lparr>deadline := map_option (stored_deadline P) (deadline t)\<rparr>"

text \<open>Example data: a task, a state around a list of tasks, a task with a deadline.\<close>

definition example_task :: "string \<Rightarrow> bool \<Rightarrow> todo" where
  "example_task i c =
     \<lparr>todo_id = i, todo_text = ''task '' @ i, completed = c, createdAt = Date 1000,
      completedAt = (if c then Some (Date 2000) else None), deadline = None\<rparr>"

definition example_state :: "todo list \<Rightarrow> filter_mode \<Rightarrow> app_state" where
  "example_state ts f =
     \<lparr>todos = ts, newTodo = [], newDeadline = [], editingId = None, editingText = [],
      filter_sel = f, justAddedId = None\<rparr>"

definition example_deadline_task :: todo where
  "example_deadline_task =
     \<lparr>todo_id = ''1000'', todo_text = ''Pay rent'', completed = False, createdAt = Date 1000,
      completedAt = None, deadline = Some (Deadline_Date (Date 86400000))\<rparr>"

text \<open>
  A finite fragment of a browser, enough to run the examples: it knows two instants and
  their ISO strings, and one stored text, the one of the list that holds
  \<open>example_deadline_task\<close>; every other text is malformed for it.
\<close>

definition example_platform :: "unit platform" where
  "example_platform =
     \<lparr>JSON_parse = (\<lambda>s. if s = ''[one task]''
          then Some (VArr [VObj [(''id'', VStr ''1000''), (''text'', VStr ''Pay rent''),
                 (''completed'', VBool False), (''createdAt'', VStr ''1970-01-01T00:00:01.000Z''),
                 (''deadline'', VStr ''1970-01-02T00:00:00.000Z'')]])
          else None),
      JSON_stringify = (\<lambda>v. ''[one task]''),
      Date_parse = (\<lambda>s. if s = ''1970-01-01T00:00:01.000Z'' then Date 1000
                        else if s = ''1970-01-02T00:00:00.000Z'' \<or> s = ''1970-01-02''
                        then Date 86400000
                        else Invalid_Date),
      Date_toISOString = (\<lambda>t. if t = 1000 then ''1970-01-01T00:00:01.000Z''
                              else ''1970-01-02T00:00:00.000Z''),
      Number_toString = (\<lambda>n. ''0''),
      Number_toBoolean = (\<lambda>n. False),
      Date_ofNumber = (\<lambda>n. Date 0),
      Object_toPrimitive = (\<lambda>v. Some ''[object Object]'')\<rparr>"

lemmas example_defs = example_task_def example_state_def

section \<open>Searching and moving in a list\<close>

lemma findIndex_neg: "(findIndex p xs < 0) = (\<forall>x \<in> set xs. \<not> p x)"
  by (induction xs) (auto simp: Let_def)

lemma findIndex_less: "findIndex p xs < int (length xs)"
  by (induction xs) (auto simp: Let_def)

lemma findIndex_first: "0 \<le> findIndex p xs \<Longrightarrow> p (xs ! nat (findIndex p xs))"
  by (induction xs) (auto simp: Let_def nat_add_distrib split: if_splits)

lemma findIndex_found:
  assumes "x \<in> set xs" and "p x"
  obtains i where "findIndex p xs = int i" and "i < length xs" and "p (xs ! i)"
proof -
  from assms have "\<not> findIndex p xs < 0"
    by (auto simp: findIndex_neg)
  then have nonneg: "0 \<le> findIndex p xs" by simp
  define i where "i = nat (findIndex p xs)"
  from nonneg have "findIndex p xs = int i" by (simp add: i_def)
  moreover from this findIndex_less [of p xs] have "i < length xs" by simp
  moreover from nonneg have "p (xs ! i)" unfolding i_def by (rule findIndex_first)
  ultimately show thesis by (rule that)
qed

lemma splice_start_nat: "i \<le> n \<Longrightarrow> splice_start n (int i) = i"
  by (simp add: splice_start_def)

text \<open>With a valid source index, \<open>arrayMove\<close> takes that element out and puts it back somewhere.\<close>

lemma arrayMove_valid:
  assumes "i < length xs"
  shows "\<exists>b. arrayMove xs (int i) k =
           Some (take b (take i xs @ drop (Suc i) xs) @ xs ! i # drop b (take i xs @ drop (Suc i) xs))"
proof -
  from assms have rem: "take 1 (drop i xs) = [xs ! i]"
    by (simp add: take_Suc_conv_app_nth Cons_nth_drop_Suc [symmetric])
  from assms have start: "splice_start (length xs) (int i) = i"
    by (simp add: splice_start_nat)
  define b where "b = splice_start (length (take i xs @ drop (Suc i) xs))
      (if k < 0 then int (length xs) + k else k)"
  have "arrayMove xs (int i) k =
      Some (take b (take i xs @ drop (Suc i) xs) @ xs ! i # drop b (take i xs @ drop (Suc i) xs))"
    unfolding arrayMove_def Let_def start rem b_def by simp
  then show ?thesis by (rule exI)
qed

lemma arrayMove_filter:
  assumes "i < length xs" and "\<not> h (xs ! i)" and "arrayMove xs (int i) k = Some ys"
  shows "filter h ys = filter h xs"
proof -
  let ?rest = "take i xs @ drop (Suc i) xs"
  from arrayMove_valid [OF assms(1), of k] assms(3)
  obtain b where ys: "ys = take b ?rest @ xs ! i # drop b ?rest"
    by auto
  have "filter h ys = filter h (take b ?rest) @ filter h (drop b ?rest)"
    using assms(2) by (simp add: ys)
  also have "\<dots> = filter h (take b ?rest @ drop b ?rest)"
    by (simp only: filter_append)
  also have "\<dots> = filter h ?rest"
    by (simp only: append_take_drop_id)
  also have "\<dots> = filter h (take i xs @ xs ! i # drop (Suc i) xs)"
    using assms(2) by simp
  also have "\<dots> = filter h xs"
    using assms(1) by (simp only: id_take_nth_drop [symmetric])
  finally show ?thesis .
qed

text \<open>Whatever the indices, a result of \<open>arrayMove\<close> holds the same elements.\<close>

lemma arrayMove_mset:
  assumes "arrayMove xs a b = Some ys"
  shows "mset ys = mset xs"
proof -
  define A where "A = splice_start (length xs) a"
  define removed where "removed = take 1 (drop A xs)"
  define rest where "rest = take A xs @ drop (A + length removed) xs"
  define B where "B = splice_start (length rest) (if b < 0 then int (length xs) + b else b)"
  have "arrayMove xs a b =
      (case removed of [] \<Rightarrow> None | item # _ \<Rightarrow> Some (take B rest @ item # drop B rest))"
    unfolding arrayMove_def Let_def B_def rest_def removed_def A_def by (rule refl)
  moreover have "length removed \<le> 1"
    by (simp add: removed_def)
  ultimately obtain item where removed: "removed = [item]"
    and ys: "ys = take B rest @ item # drop B rest"
    using assms by (cases removed) auto
  have "xs = take A xs @ take 1 (drop A xs) @ drop 1 (drop A xs)"
    by (simp only: append_take_drop_id)
  also have "\<dots> = take A xs @ item # drop (A + length removed) xs"
    using removed unfolding removed_def by (simp add: add.commute)
  finally have "mset xs = mset rest + {#item#}"
    unfolding rest_def
    by (metis mset.simps(2) mset_append union_mset_add_mset_right add.right_neutral
        add_mset_add_single)
  moreover have "mset ys = mset (take B rest @ drop B rest) + {#item#}"
    unfolding ys by (simp only: mset_append mset.simps) simp
  ultimately show ?thesis
    by (simp only: append_take_drop_id)
qed

lemma arrayMove_set: "arrayMove xs a b = Some ys \<Longrightarrow> set ys = set xs"
  by (auto dest: arrayMove_mset mset_eq_setD)

lemma findIndex_ge: "- 1 \<le> findIndex p xs"
  by (induction xs) (auto simp: Let_def)

lemma arrayMove_defined:
  assumes "xs \<noteq> []" and "- 1 \<le> a" and "a < int (length xs)"
  shows "arrayMove xs a b \<noteq> None"
proof -
  from assms have "splice_start (length xs) a < length xs"
    by (cases xs) (auto simp: splice_start_def)
  then have "take 1 (drop (splice_start (length xs) a) xs) \<noteq> []"
    by simp
  then show ?thesis
    by (auto simp: arrayMove_def Let_def split: list.splits)
qed

lemma distinct_ids_same:
  assumes "distinct (map todo_id ts)" and "t \<in> set ts" and "u \<in> set ts"
    and "todo_id t = todo_id u"
  shows "t = u"
  using assms by (meson distinct_map inj_onD)

section \<open>Reordering\<close>

text \<open>The handler has a store to return unless the store is empty and the guard passes.\<close>

lemma handleDragEnd_None:
  "(handleDragEnd active over st = None) = (todos st = [] \<and> Some active \<noteq> over)"
proof (cases "todos st = []")
  case True
  then show ?thesis
    by (simp add: handleDragEnd_def arrayMove_def splice_start_def)
next
  case False
  from arrayMove_defined [OF False findIndex_ge findIndex_less] False show ?thesis
    by (simp add: handleDragEnd_def Let_def)
qed

text \<open>\<open>findIndex\<close> gives the position of the first element that \<open>find\<close> returns.\<close>

lemma find_findIndex:
  "find p xs = Some t \<Longrightarrow> \<exists>i. findIndex p xs = int i \<and> i < length xs \<and> xs ! i = t"
proof (induction xs)
  case Nil
  then show ?case by simp
next
  case (Cons x xs)
  show ?case
  proof (cases "p x")
    case True
    with Cons.prems show ?thesis by simp
  next
    case False
    with Cons.prems have "find p xs = Some t" by simp
    with Cons.IH obtain i where "findIndex p xs = int i" "i < length xs" "xs ! i = t"
      by blast
    with False have "findIndex p (x # xs) = int (Suc i) \<and> Suc i < length (x # xs)
        \<and> (x # xs) ! Suc i = t"
      by (simp add: Let_def)
    then show ?thesis by blast
  qed
qed

text \<open>
  The task that the handler moves is the first one of the store with the dragged id.
  When that task is outside the set \<open>h\<close>, the tasks of \<open>h\<close> keep their order.
\<close>

lemma handleDragEnd_frame:
  assumes "find (\<lambda>u. todo_id u = active) (todos st) = Some t" and "\<not> h t"
  shows "\<exists>st'. handleDragEnd active over st = Some st'
           \<and> filter h (todos st') = filter h (todos st)
           \<and> mset (todos st') = mset (todos st)"
proof (cases "Some active = over")
  case True
  then show ?thesis by (simp add: handleDragEnd_def)
next
  case False
  from find_findIndex [OF assms(1)] obtain i
    where i: "findIndex (\<lambda>u. todo_id u = active) (todos st) = int i"
      "i < length (todos st)" "todos st ! i = t"
    by blast
  from assms(2) i(3) have out: "\<not> h (todos st ! i)" by simp
  let ?k = "findIndex (\<lambda>t. Some (todo_id t) = over) (todos st)"
  from arrayMove_valid [OF i(2), of ?k]
  obtain ys where ys: "arrayMove (todos st) (int i) ?k = Some ys" by blast
  from arrayMove_filter [where h = h, OF i(2) out ys] arrayMove_mset [OF ys] False i(1) ys
  show ?thesis
    by (simp add: handleDragEnd_def Let_def)
qed

text \<open>With unique ids, the first task with the id of a visible task is that visible task.\<close>

lemma unique_ids_pick_visible:
  assumes "distinct (map todo_id (todos st))"
    and "active \<in> todo_id ` set (filteredTodos st)"
  shows "\<exists>t. find (\<lambda>u. todo_id u = active) (todos st) = Some t \<and> shown (filter_sel st) t"
proof -
  from assms(2) obtain t
    where t: "t \<in> set (todos st)" "shown (filter_sel st) t" "todo_id t = active"
    by (auto simp: filteredTodos_def)
  then have "find (\<lambda>u. todo_id u = active) (todos st) \<noteq> None"
    by (auto simp: find_None_iff)
  then obtain u where u: "find (\<lambda>u. todo_id u = active) (todos st) = Some u"
    by blast
  then have "u \<in> set (todos st)" "todo_id u = active"
    by (auto simp: find_Some_iff)
  with assms(1) t have "u = t"
    by (auto intro: distinct_ids_same)
  with u t(2) show ?thesis by simp
qed

lemma reorder_unique_ids:
  assumes "distinct (map todo_id (todos st))"
    and "active \<in> todo_id ` set (filteredTodos st)"
  shows "\<exists>st'. handleDragEnd active over st = Some st'
           \<and> filter (\<lambda>t. \<not> shown (filter_sel st) t) (todos st')
               = filter (\<lambda>t. \<not> shown (filter_sel st) t) (todos st)
           \<and> mset (todos st') = mset (todos st)"
proof -
  from unique_ids_pick_visible [OF assms] obtain t
    where "find (\<lambda>u. todo_id u = active) (todos st) = Some t" and "shown (filter_sel st) t"
    by blast
  then show ?thesis
    by (intro handleDragEnd_frame [where h = "\<lambda>t. \<not> shown (filter_sel st) t"]) simp_all
qed




text \<open>A drag that ends on the dragged task itself leaves the state as it is.\<close>

lemma handleDragEnd_same: "handleDragEnd a (Some a) st = Some st"
  by (simp add: handleDragEnd_def)

text \<open>
  C2. A drag that ends over no target is no no-op: \<open>over?.id\<close> is \<open>undefined\<close>, the guard
  \<open>active.id !== over?.id\<close> holds, \<open>findIndex\<close> returns \<open>-1\<close> for the target and
  \<open>arrayMove\<close> counts \<open>-1\<close> from the end, so the dragged task becomes the last one. Here
  \<open>A\<close> is dragged out of the store \<open>A, B, C\<close>.
\<close>

theorem drop_without_target_moves_to_end:
  "handleDragEnd ''A'' None
     (example_state [example_task ''A'' False, example_task ''B'' False, example_task ''C'' False] F_all)
   = Some (example_state
       [example_task ''B'' False, example_task ''C'' False, example_task ''A'' False] F_all)
   \<and> handleDragEnd ''A'' None
     (example_state [example_task ''A'' False, example_task ''B'' False, example_task ''C'' False] F_all)
   \<noteq> Some (example_state
       [example_task ''A'' False, example_task ''B'' False, example_task ''C'' False] F_all)"
  by (simp add: handleDragEnd_def arrayMove_def splice_start_def example_defs Let_def)

section \<open>Adding\<close>

text \<open>
  C7. When the input is not blank (not empty after trimming), \<open>addTodo\<close> appends exactly one
  task, with the input as its text, not completed and without \<open>completedAt\<close>; when the
  input is blank, it returns the state it was given.
\<close>

theorem addTodo_grows_or_ignores:
  "(trim (newTodo st) \<noteq> [] \<longrightarrow>
      (\<exists>t. todos (addTodo P now_id now_created st) = todos st @ [t]
           \<and> todo_text t = newTodo st \<and> completed t = False \<and> completedAt t = None)
      \<and> length (todos (addTodo P now_id now_created st)) = length (todos st) + 1)
   \<and> (trim (newTodo st) = [] \<longrightarrow> addTodo P now_id now_created st = st)"
  by (simp add: addTodo_def Let_def)

theorem addTodo_grows_or_ignores_witness:
  "trim ''Buy milk'' \<noteq> []
   \<and> length (todos (addTodo example_platform 5000 5001
        ((example_state [] F_all)\<lparr>newTodo := ''Buy milk''\<rparr>))) = 1
   \<and> trim ''   '' = []
   \<and> addTodo example_platform 5000 5001 ((example_state [] F_all)\<lparr>newTodo := ''   ''\<rparr>)
       = (example_state [] F_all)\<lparr>newTodo := ''   ''\<rparr>"
  using addTodo_grows_or_ignores
      [of "(example_state [] F_all)\<lparr>newTodo := ''Buy milk''\<rparr>" example_platform 5000 5001]
    addTodo_grows_or_ignores
      [of "(example_state [] F_all)\<lparr>newTodo := ''   ''\<rparr>" example_platform 5000 5001]
  by (simp add: example_defs trim_def isWhiteSpace_def)

text \<open>
  C4. The id of a new task is the decimal string of \<open>Date.now()\<close>. When the store already
  holds a task with that string as its id (a second add in the same millisecond, a clock
  set back, a stored id), the store has two tasks with one id afterwards.
\<close>

theorem addTodo_repeats_id:
  "map todo_id (todos (addTodo P 1000 1000
       ((example_state [example_task ''1000'' False] F_all)\<lparr>newTodo := ''again''\<rparr>)))
   = [''1000'', ''1000'']
   \<and> \<not> distinct (map todo_id (todos (addTodo P 1000 1000
       ((example_state [example_task ''1000'' False] F_all)\<lparr>newTodo := ''again''\<rparr>))))"
  by (simp add: addTodo_def trim_def isWhiteSpace_def int_toString_def digits.simps
      example_defs Let_def)

section \<open>Completing\<close>

text \<open>
  C5, as the claim states it, fails on a completed task: after two toggles its
  \<open>completedAt\<close> is the time of the second toggle, not the original one.
\<close>

theorem toggle_twice_new_stamp:
  "map completedAt (todos (example_state [example_task ''A'' True] F_all)) = [Some (Date 2000)]
   \<and> map completedAt (todos (toggleTodo 4000 ''A'' (toggleTodo 3000 ''A''
        (example_state [example_task ''A'' True] F_all)))) = [Some (Date 4000)]
   \<and> todos (toggleTodo 4000 ''A'' (toggleTodo 3000 ''A''
        (example_state [example_task ''A'' True] F_all)))
      \<noteq> todos (example_state [example_task ''A'' True] F_all)"
  by (simp add: toggleTodo_def toggle_def example_defs)

text \<open>
  C5, amended. Two toggles of an id leave every task as it was but for \<open>completedAt\<close> of
  the tasks with that id: absent when the task was not completed (so a task that was not
  completed and had no \<open>completedAt\<close> is as before), and the time of the second toggle when
  it was completed. The \<open>completed\<close> flag is the original one.
\<close>

theorem toggle_twice:
  "todos (toggleTodo n2 i (toggleTodo n1 i st)) =
     map (\<lambda>t. if todo_id t = i
               then t\<lparr>completedAt := (if completed t then Some (Date n2) else None)\<rparr>
               else t) (todos st)"
  by (simp add: toggleTodo_def toggle_def)

lemma toggle_matches: "completedAt_matches t \<Longrightarrow> completedAt_matches (toggle now i t)"
  by (simp add: completedAt_matches_def toggle_def)

lemma edit_matches [simp]: "completedAt_matches (t\<lparr>todo_text := x\<rparr>) = completedAt_matches t"
  by (simp add: completedAt_matches_def)

lemma step_matches:
  assumes "list_all completedAt_matches (todos st)" and "step P e st = Some st'"
  shows "list_all completedAt_matches (todos st')"
proof (cases e)
  case (AddTodo n1 n2)
  with assms show ?thesis
    by (auto simp: addTodo_def Let_def completedAt_matches_def)
next
  case (ToggleTodo now i)
  with assms show ?thesis
    by (auto simp: toggleTodo_def list_all_iff toggle_matches)
next
  case (DeleteTodo i)
  with assms show ?thesis
    by (auto simp: deleteTodo_def list_all_iff)
next
  case SubmitEdit
  with assms show ?thesis
    by (auto simp: submitEdit_def list_all_iff split: option.splits)
next
  case (DragEnd active over)
  with assms show ?thesis
    by (auto simp: handleDragEnd_def Let_def list_all_iff split: if_splits dest: arrayMove_set)
qed (use assms in \<open>auto simp: highlightExpired_def startEditing_def cancelEdit_def\<close>)

lemma run_matches:
  "list_all completedAt_matches (todos st) \<Longrightarrow> run P es st = Some st'
     \<Longrightarrow> list_all completedAt_matches (todos st')"
proof (induction es arbitrary: st)
  case Nil
  then show ?case by simp
next
  case (Cons e es)
  then show ?case
    by (auto split: option.splits dest: step_matches)
qed

text \<open>
  C6. From a store in which \<open>completedAt\<close> is present exactly on the completed tasks (the
  empty store is one), every run of the handlers (add, toggle, edit, delete, reorder and the
  others) ends in such a store. A toggle flips \<open>completed\<close> of the task with the id and
  sets \<open>completedAt\<close> to the current time when the task was not completed, and removes it
  when it was.
\<close>

theorem completedAt_iff_completed:
  assumes "list_all completedAt_matches (todos st)"
  shows "(run P es st = Some st' \<longrightarrow> list_all completedAt_matches (todos st'))
    \<and> (\<forall>k < length (todos st). todo_id (todos st ! k) = i \<longrightarrow>
          completed (todos (toggleTodo now i st) ! k) = (\<not> completed (todos st ! k))
          \<and> completedAt (todos (toggleTodo now i st) ! k)
              = (if completed (todos st ! k) then None else Some (Date now)))"
  using assms by (auto simp: toggleTodo_def toggle_def dest: run_matches)

theorem completedAt_iff_completed_witness:
  "list_all completedAt_matches (todos (example_state [example_task ''A'' False] F_all))
   \<and> run example_platform
        [SetNewTodo ''B'', AddTodo 5000 5000, ToggleTodo 6000 ''A'', SetFilter F_completed,
         DragEnd ''A'' (Some ''5000''), StartEditing (example_task ''A'' False),
         SetEditingText ''x'', SubmitEdit, DeleteTodo ''5000'', ToggleTodo 7000 ''A'']
        (example_state [example_task ''A'' False] F_all)
      = Some ((example_state [(example_task ''A'' False)\<lparr>todo_text := ''x''\<rparr>] F_completed)
               \<lparr>justAddedId := Some ''5000''\<rparr>)
   \<and> list_all completedAt_matches
        (todos ((example_state [(example_task ''A'' False)\<lparr>todo_text := ''x''\<rparr>] F_completed)
               \<lparr>justAddedId := Some ''5000''\<rparr>))
   \<and> map completedAt (todos (toggleTodo 6000 ''A'' (example_state [example_task ''A'' False] F_all)))
        = [Some (Date 6000)]"
proof -
  let ?s = "example_state [example_task ''A'' False] F_all"
  let ?s' = "(example_state [(example_task ''A'' False)\<lparr>todo_text := ''x''\<rparr>] F_completed)
               \<lparr>justAddedId := Some ''5000''\<rparr>"
  let ?es = "[SetNewTodo ''B'', AddTodo 5000 5000, ToggleTodo 6000 ''A'', SetFilter F_completed,
         DragEnd ''A'' (Some ''5000''), StartEditing (example_task ''A'' False),
         SetEditingText ''x'', SubmitEdit, DeleteTodo ''5000'', ToggleTodo 7000 ''A'']"
  have inv: "list_all completedAt_matches (todos ?s)"
    by (simp add: example_defs completedAt_matches_def)
  have r: "run example_platform ?es ?s = Some ?s'"
    by (simp add: example_defs addTodo_def trim_def isWhiteSpace_def int_toString_def digits.simps
        toggleTodo_def toggle_def handleDragEnd_def arrayMove_def splice_start_def Let_def
        startEditing_def submitEdit_def deleteTodo_def)
  from completedAt_iff_completed
         [OF inv, where P = example_platform and es = ?es and st' = ?s' and i = "''A''"
           and now = 6000]
  have "run example_platform ?es ?s = Some ?s' \<longrightarrow> list_all completedAt_matches (todos ?s')"
    by (rule conjunct1)
  with r have inv': "list_all completedAt_matches (todos ?s')"
    by (rule rev_mp)
  have tg: "map completedAt (todos (toggleTodo 6000 ''A'' ?s)) = [Some (Date 6000)]"
    by (simp add: example_defs toggleTodo_def toggle_def)
  from inv r inv' tg show ?thesis
    by (intro conjI)
qed

section \<open>Filtering\<close>

text \<open>
  C8. The rendered list is computed from the state and changes nothing in it. Under \<open>all\<close>
  it is the store, under \<open>active\<close> the tasks that are not completed, under \<open>completed\<close> the
  completed ones, each in the order of the store (a subsequence of it); the active and the
  completed tasks together are the tasks of the store, each once, and no task is in both.
\<close>

theorem filteredTodos_partition:
  "filteredTodos (st\<lparr>filter_sel := F_all\<rparr>) = todos st
   \<and> filteredTodos (st\<lparr>filter_sel := F_active\<rparr>) = filter (\<lambda>t. \<not> completed t) (todos st)
   \<and> filteredTodos (st\<lparr>filter_sel := F_completed\<rparr>) = filter completed (todos st)
   \<and> subseq (filteredTodos st) (todos st)
   \<and> mset (filteredTodos (st\<lparr>filter_sel := F_active\<rparr>))
       + mset (filteredTodos (st\<lparr>filter_sel := F_completed\<rparr>)) = mset (todos st)
   \<and> set (filteredTodos (st\<lparr>filter_sel := F_active\<rparr>))
       \<inter> set (filteredTodos (st\<lparr>filter_sel := F_completed\<rparr>)) = {}"
proof -
  have "shown F_all = (\<lambda>t. True)" "shown F_active = (\<lambda>t. \<not> completed t)"
      "shown F_completed = completed"
    by (simp_all add: fun_eq_iff)
  then show ?thesis
    by (auto simp: filteredTodos_def)
qed

section \<open>Editing\<close>

text \<open>
  C10. With an edit session open on an id, \<open>submitEdit\<close> gives every task with that id the
  text in progress, whatever it is (the empty string and white space too), and changes
  nothing else of it; every other task, the length and the order of the store stay, and
  the session is closed.
\<close>

theorem submitEdit_replaces_text:
  assumes "editingId st = Some eid"
  shows "length (todos (submitEdit st)) = length (todos st)
    \<and> (\<forall>k < length (todos st).
          todos (submitEdit st) ! k =
            (if todo_id (todos st ! k) = eid then (todos st ! k)\<lparr>todo_text := editingText st\<rparr>
             else todos st ! k))
    \<and> map todo_id (todos (submitEdit st)) = map todo_id (todos st)
    \<and> map completed (todos (submitEdit st)) = map completed (todos st)
    \<and> map createdAt (todos (submitEdit st)) = map createdAt (todos st)
    \<and> map completedAt (todos (submitEdit st)) = map completedAt (todos st)
    \<and> map deadline (todos (submitEdit st)) = map deadline (todos st)
    \<and> editingId (submitEdit st) = None"
  using assms by (simp add: submitEdit_def comp_def)

theorem submitEdit_replaces_text_witness:
  "editingId ((example_state [example_task ''A'' True, example_task ''B'' False] F_all)
       \<lparr>editingId := Some ''A'', editingText := ''  ''\<rparr>) = Some ''A''
   \<and> todos (submitEdit ((example_state [example_task ''A'' True, example_task ''B'' False] F_all)
       \<lparr>editingId := Some ''A'', editingText := ''  ''\<rparr>))
      = [(example_task ''A'' True)\<lparr>todo_text := ''  ''\<rparr>, example_task ''B'' False]"
proof -
  let ?s = "(example_state [example_task ''A'' True, example_task ''B'' False] F_all)
       \<lparr>editingId := Some ''A'', editingText := ''  ''\<rparr>"
  have e: "editingId ?s = Some ''A''" by (simp add: example_defs)
  from submitEdit_replaces_text [OF e] e show ?thesis
    by (simp add: example_defs list_eq_iff_nth_eq less_Suc_eq)
qed

section \<open>Loading and saving\<close>

text \<open>
  C9. When \<open>JSON.parse\<close> throws on the stored text, the initializer returns the empty
  list, the effect on mount leaves the list it finds, and the tasks after startup are the
  empty list: the component starts with an empty store, and no exception leaves the load.
\<close>

theorem load_malformed_is_empty:
  assumes "JSON_parse P s = None"
  shows "initial_todos P (Some s) = [] \<and> load_effect P (Some s) current = current
    \<and> load P (Some s) = []
    \<and> map_option todos (initial_state P (Some s)) = Some []"
  using assms by (simp add: load_def initial_todos_def load_effect_def initial_state_def)

theorem load_malformed_is_empty_witness:
  "JSON_parse example_platform ''{oops'' = None \<and> load example_platform (Some ''{oops'') = []
   \<and> initial_state example_platform (Some ''{oops'') = Some (example_state [] F_all)"
  using load_malformed_is_empty [of example_platform "''{oops''" "[]"]
  by (simp add: example_platform_def initial_state_def example_state_def)

text \<open>
  What the effect on mount makes of a saved task: an object with the fields of the task,
  the dates \<open>createdAt\<close> and \<open>completedAt\<close> rebuilt, the deadline left as it was stored.
\<close>

lemma revive_effect_toJSON:
  assumes "well_formed P t"
  shows "\<exists>obj. revive_effect P (todo_toJSON P t) = Some obj \<and> as_todo obj = Some (reloaded P t)"
proof -
  from assms obtain c where c: "createdAt t = Date c" "Date_toISOString P c \<noteq> []"
      "Date_parse P (Date_toISOString P c) = Date c"
    by (auto simp: well_formed_def iso_roundtrip_def split: date.splits)
  show ?thesis
  proof (cases "completedAt t")
    case None
    show ?thesis
    proof (cases "deadline t")
      case dl: None
      with None c show ?thesis
        by (simp add: revive_effect_def todo_toJSON_def date_toJSON_def as_todo_def reloaded_def)
    next
      case dl: (Some d)
      with None c assms show ?thesis
        by (cases d)
          (auto simp: revive_effect_def todo_toJSON_def date_toJSON_def deadline_toJSON_def
            as_todo_def reloaded_def stored_deadline_def well_formed_def split: date.splits)
    qed
  next
    case (Some a)
    with assms obtain a' where a: "a = Date a'" "Date_toISOString P a' \<noteq> []"
        "Date_parse P (Date_toISOString P a') = Date a'"
      by (auto simp: well_formed_def iso_roundtrip_def split: date.splits)
    show ?thesis
    proof (cases "deadline t")
      case dl: None
      with Some a c show ?thesis
        by (simp add: revive_effect_def todo_toJSON_def date_toJSON_def as_todo_def reloaded_def)
    next
      case dl: (Some d)
      with Some a c assms show ?thesis
        by (cases d)
          (auto simp: revive_effect_def todo_toJSON_def date_toJSON_def deadline_toJSON_def
            as_todo_def reloaded_def stored_deadline_def well_formed_def split: date.splits)
    qed
  qed
qed

lemma revive_effect_list:
  assumes "list_all (well_formed P) ts"
  shows "\<exists>objs. those (map (revive_effect P) (map (todo_toJSON P) ts)) = Some objs
           \<and> map as_todo objs = map (\<lambda>t. Some (reloaded P t)) ts"
  using assms
proof (induction ts)
  case Nil
  then show ?case by simp
next
  case (Cons t ts)
  then obtain objs where "those (map (revive_effect P) (map (todo_toJSON P) ts)) = Some objs"
      "map as_todo objs = map (\<lambda>t. Some (reloaded P t)) ts"
    by auto
  moreover from Cons.prems obtain obj where "revive_effect P (todo_toJSON P t) = Some obj"
      "as_todo obj = Some (reloaded P t)"
    using revive_effect_toJSON [of P t] by auto
  ultimately show ?case by simp
qed

lemma load_of_parsed:
  assumes "s \<noteq> []"
    and "JSON_parse P s = Some (VArr (map (todo_toJSON P) ts))"
    and "list_all (well_formed P) ts"
  shows "map as_todo (load P (Some s)) = map (\<lambda>t. Some (reloaded P t)) ts"
proof -
  from revive_effect_list [OF assms(3)] obtain objs
    where "those (map (revive_effect P) (map (todo_toJSON P) ts)) = Some objs"
      and "map as_todo objs = map (\<lambda>t. Some (reloaded P t)) ts"
    by blast
  with assms(1,2) show ?thesis
    by (simp add: load_def load_effect_def parsed_map_def)
qed

lemma example_well_formed: "well_formed example_platform example_deadline_task"
  by (simp add: well_formed_def iso_roundtrip_def example_platform_def example_deadline_task_def)

lemma example_parse:
  "JSON_parse example_platform (save example_platform [example_deadline_task])
     = Some (VArr (map (todo_toJSON example_platform) [example_deadline_task]))"
  by (simp add: save_def example_platform_def example_deadline_task_def todo_toJSON_def
      date_toJSON_def deadline_toJSON_def)

lemma example_save: "save example_platform [example_deadline_task] \<noteq> []"
  by (simp add: save_def example_platform_def)

text \<open>
  C3. A well-formed task with a \<open>Date\<close> as its deadline is saved, and the text is parsed
  back to the tree that was written. After the load the task has its id, text, flag and
  \<open>createdAt\<close> and \<open>completedAt\<close> dates again, but its deadline is the ISO string that was
  stored: the load rebuilds no date from it.
\<close>

theorem load_leaves_deadline_string:
  assumes "save P [t] \<noteq> []"
    and "JSON_parse P (save P [t]) = Some (VArr [todo_toJSON P t])"
    and "well_formed P t"
    and "deadline t = Some (Deadline_Date (Date x))"
  shows "map as_todo (load P (Some (save P [t])))
           = [Some (t\<lparr>deadline := Some (Deadline_String (Date_toISOString P x))\<rparr>)]"
proof -
  from assms(2,3) have "map as_todo (load P (Some (save P [t]))) = map (\<lambda>t. Some (reloaded P t)) [t]"
    by (intro load_of_parsed [OF assms(1)]) simp_all
  with assms(4) show ?thesis
    by (simp add: reloaded_def stored_deadline_def)
qed

theorem load_leaves_deadline_string_witness:
  "save example_platform [example_deadline_task] \<noteq> []
   \<and> well_formed example_platform example_deadline_task
   \<and> deadline example_deadline_task = Some (Deadline_Date (Date 86400000))
   \<and> map as_todo (load example_platform (Some (save example_platform [example_deadline_task])))
       = [Some (example_deadline_task
                 \<lparr>deadline := Some (Deadline_String ''1970-01-02T00:00:00.000Z'')\<rparr>)]"
proof -
  have d: "deadline example_deadline_task = Some (Deadline_Date (Date 86400000))"
    by (simp add: example_deadline_task_def)
  have p: "JSON_parse example_platform (save example_platform [example_deadline_task])
      = Some (VArr [todo_toJSON example_platform example_deadline_task])"
    using example_parse by simp
  have i: "Date_toISOString example_platform 86400000 = ''1970-01-02T00:00:00.000Z''"
    by (simp add: example_platform_def)
  from load_leaves_deadline_string [OF example_save p example_well_formed d] i
  have "map as_todo (load example_platform (Some (save example_platform [example_deadline_task])))
       = [Some (example_deadline_task
                 \<lparr>deadline := Some (Deadline_String ''1970-01-02T00:00:00.000Z'')\<rparr>)]"
    by (simp only:)
  with example_save example_well_formed d show ?thesis
    by (intro conjI)
qed

section \<open>Further properties\<close>

text \<open>
  A list of well-formed tasks that is saved, and whose text is parsed back to the tree
  that was written, is loaded as the same tasks, each with its deadline as the stored
  string; a list of tasks without deadlines is loaded as it was.
\<close>

theorem load_of_save:
  assumes "save P ts \<noteq> []"
    and "JSON_parse P (save P ts) = Some (VArr (map (todo_toJSON P) ts))"
    and "list_all (well_formed P) ts"
  shows "map as_todo (load P (Some (save P ts))) = map (\<lambda>t. Some (reloaded P t)) ts
    \<and> (list_all (\<lambda>t. deadline t = None) ts \<longrightarrow>
          map as_todo (load P (Some (save P ts))) = map Some ts)"
proof -
  have 1: "map as_todo (load P (Some (save P ts))) = map (\<lambda>t. Some (reloaded P t)) ts"
    using assms by (rule load_of_parsed)
  have "map (\<lambda>t. Some (reloaded P t)) ts = map Some ts" if "list_all (\<lambda>t. deadline t = None) ts"
    using that by (induction ts) (simp_all add: reloaded_def)
  with 1 show ?thesis by simp
qed

theorem load_of_save_witness:
  "save example_platform [example_deadline_task] \<noteq> []
   \<and> list_all (well_formed example_platform) [example_deadline_task]
   \<and> map as_todo (load example_platform (Some (save example_platform [example_deadline_task])))
       = [Some (reloaded example_platform example_deadline_task)]"
proof -
  have w: "list_all (well_formed example_platform) [example_deadline_task]"
    using example_well_formed by simp
  from load_of_save [OF example_save example_parse w]
  have "map as_todo (load example_platform (Some (save example_platform [example_deadline_task])))
       = [Some (reloaded example_platform example_deadline_task)]"
    by simp
  with example_save w show ?thesis
    by (intro conjI)
qed

lemma toggleTodo_ids: "map todo_id (todos (toggleTodo now i st)) = map todo_id (todos st)"
  by (simp add: toggleTodo_def toggle_def comp_def)

lemma submitEdit_ids: "map todo_id (todos (submitEdit st)) = map todo_id (todos st)"
  by (simp add: submitEdit_def comp_def split: option.splits)

text \<open>
  Every handler but \<open>addTodo\<close> keeps the ids of the store distinct, and \<open>addTodo\<close> does when
  the string of its timestamp is the id of no task in the store.
\<close>

theorem step_keeps_ids_distinct:
  assumes "distinct (map todo_id (todos st))"
    and "step P e st = Some st'"
    and "case e of AddTodo now_id now_created \<Rightarrow> int_toString now_id \<notin> todo_id ` set (todos st)
         | _ \<Rightarrow> True"
  shows "distinct (map todo_id (todos st'))"
proof (cases e)
  case (AddTodo now_id now_created)
  with assms show ?thesis
    by (auto simp: addTodo_def Let_def)
next
  case (ToggleTodo now i)
  with assms(2) have "st' = toggleTodo now i st" by simp
  with assms(1) show ?thesis
    by (simp only: toggleTodo_ids)
next
  case (DeleteTodo i)
  with assms show ?thesis
    by (auto simp: deleteTodo_def distinct_map_filter)
next
  case SubmitEdit
  with assms(2) have "st' = submitEdit st" by simp
  with assms(1) show ?thesis
    by (simp only: submitEdit_ids)
next
  case (DragEnd active over)
  with assms(2) have "mset (todos st') = mset (todos st)"
    by (auto simp: handleDragEnd_def Let_def split: if_splits dest: arrayMove_mset)
  then have "mset (map todo_id (todos st')) = mset (map todo_id (todos st))"
    by simp
  then have "distinct (map todo_id (todos st')) = distinct (map todo_id (todos st))"
    by (rule mset_eq_imp_distinct_iff)
  with assms(1) show ?thesis
    by (simp only:)
qed (use assms in \<open>auto simp: highlightExpired_def startEditing_def cancelEdit_def\<close>)

theorem step_keeps_ids_distinct_witness:
  "distinct (map todo_id (todos (example_state [example_task ''A'' False, example_task ''B'' True] F_all)))
   \<and> step example_platform (DragEnd ''B'' (Some ''A''))
        (example_state [example_task ''A'' False, example_task ''B'' True] F_all)
      = Some (example_state [example_task ''B'' True, example_task ''A'' False] F_all)
   \<and> distinct (map todo_id (todos
        (example_state [example_task ''B'' True, example_task ''A'' False] F_all)))"
proof -
  let ?s = "example_state [example_task ''A'' False, example_task ''B'' True] F_all"
  let ?s' = "example_state [example_task ''B'' True, example_task ''A'' False] F_all"
  have d: "distinct (map todo_id (todos ?s))"
    by (simp add: example_defs)
  have r: "step example_platform (DragEnd ''B'' (Some ''A'')) ?s = Some ?s'"
    by (simp add: handleDragEnd_def arrayMove_def splice_start_def example_defs Let_def)
  from step_keeps_ids_distinct [OF d r] have "distinct (map todo_id (todos ?s'))"
    by simp
  with d r show ?thesis
    by (intro conjI)
qed

text \<open>
  The second scenario of the specification: in the store \<open>A, B, C\<close>, dragging \<open>C\<close> onto
  the first task gives \<open>C, A, B\<close>.
\<close>

theorem drag_last_to_front:
  "handleDragEnd ''C'' (Some ''A'')
     (example_state [example_task ''A'' False, example_task ''B'' False, example_task ''C'' False] F_all)
   = Some (example_state
       [example_task ''C'' False, example_task ''A'' False, example_task ''B'' False] F_all)"
  by (simp add: handleDragEnd_def arrayMove_def splice_start_def example_defs Let_def)

text \<open>
  A stored text that parses to a value that is no array, or to an array with \<open>null\<close> among
  its elements, is loaded as the empty list too: the \<open>TypeError\<close> ends the whole load, and
  the elements before the \<open>null\<close> are not kept.
\<close>

lemma those_map_None: "x \<in> set xs \<Longrightarrow> f x = None \<Longrightarrow> those (map f xs) = None"
  by (induction xs) (auto split: option.splits)

theorem load_wrong_shape_is_empty:
  assumes "JSON_parse P s = Some v"
    and "(case v of VArr xs \<Rightarrow> VNull \<in> set xs | _ \<Rightarrow> True)"
  shows "load P (Some s) = []"
proof -
  have "parsed_map (revive_initial P) v = None \<and> parsed_map (revive_effect P) v = None"
  proof (cases v)
    case (VArr xs)
    with assms(2) have "VNull \<in> set xs" by simp
    moreover have "revive_initial P VNull = None" "revive_effect P VNull = None"
      by (simp_all add: revive_initial_def revive_effect_def)
    ultimately show ?thesis
      using VArr by (simp add: parsed_map_def those_map_None)
  qed (simp_all add: parsed_map_def)
  with assms(1) show ?thesis
    by (simp add: load_def initial_todos_def load_effect_def)
qed

theorem load_wrong_shape_is_empty_witness:
  "JSON_parse (example_platform\<lparr>JSON_parse := (\<lambda>s. Some (VArr [VObj [], VNull]))\<rparr>) ''[{},null]''
     = Some (VArr [VObj [], VNull])
   \<and> load (example_platform\<lparr>JSON_parse := (\<lambda>s. Some (VArr [VObj [], VNull]))\<rparr>)
        (Some ''[{},null]'') = []"
  using load_wrong_shape_is_empty
    [of "example_platform\<lparr>JSON_parse := (\<lambda>s. Some (VArr [VObj [], VNull]))\<rparr>" "''[{},null]''"
      "VArr [VObj [], VNull]"]
  by simp

end
